theory Spec2Isabelle
  imports Main
begin

section \<open>The NETCONF session engine (netconf/message.go)\<close>

text \<open>
  The session of \<^verbatim>\<open>message.go\<close> is a record of its fields together with the objects
  they point to: the transport behind the encoder, the framing mode of the codec, the
  loggers, and the Go channels the session and its callers share. A channel reference is
  an optional identifier, \<open>None\<close> being Go's \<^verbatim>\<open>nil\<close> channel. Goroutines are
  sequentialised: every function below is one atomic step of one goroutine, and a
  function that blocks in the source is split at the blocking receive.
\<close>

subsection \<open>Messages\<close>

record xml_Name =
  Space :: string
  Local :: string

text \<open>
  Modelled from the spec: the message types \<^verbatim>\<open>HelloMessage\<close>, \<^verbatim>\<open>RPCMessage\<close>,
  \<^verbatim>\<open>RPCReply\<close>, \<^verbatim>\<open>NotificationMessage\<close>, \<^verbatim>\<open>Notification\<close> and \<^verbatim>\<open>Request\<close> are
  declared outside \<^verbatim>\<open>message.go\<close>. Only the fields that \<^verbatim>\<open>message.go\<close> reads or writes
  are kept; timestamps and reply payloads are opaque text.
\<close>

record HelloMessage =
  Capabilities :: "string list"

type_synonym Request = string

record RPCMessage =
  MessageID :: string
  Methods :: string

type_synonym RPCReply = string

record EventBody =
  ev_XMLName :: xml_Name
  ev_Event :: string

record NotificationMessage =
  nm_EventTime :: string
  nm_Event :: EventBody

record Notification =
  n_XMLName :: xml_Name
  n_EventTime :: string
  n_Event :: string

datatype error = EOF | Failure string

fun error_text :: "error \<Rightarrow> string" where
  "error_text EOF = ''EOF''"
| "error_text (Failure m) = m"

definition netconfNS :: string where
  "netconfNS = ''urn:ietf:params:xml:ns:netconf:base:1.0''"

definition netconfNotifyNS :: string where
  "netconfNotifyNS = ''urn:ietf:params:xml:ns:netconf:notification:1.0''"

definition nameHello :: xml_Name where
  "nameHello = \<lparr>Space = netconfNS, Local = ''hello''\<rparr>"

definition nameRPCReply :: xml_Name where
  "nameRPCReply = \<lparr>Space = netconfNS, Local = ''rpc-reply''\<rparr>"

definition notification :: xml_Name where
  "notification = \<lparr>Space = netconfNotifyNS, Local = ''notification''\<rparr>"

definition CapBase10 :: string where
  "CapBase10 = ''urn:ietf:params:netconf:base:1.0''"

definition CapBase11 :: string where
  "CapBase11 = ''urn:ietf:params:netconf:base:1.1''"

definition DefaultCapabilities :: "string list" where
  "DefaultCapabilities = [CapBase10]"

subsection \<open>What the decoder reads\<close>

text \<open>
  One pass of the dispatch loop calls \<^verbatim>\<open>Token()\<close> and, for the three known start
  elements, \<^verbatim>\<open>DecodeElement\<close>. The transport's input is the list of what these calls
  give: \<open>decoding\<close> holds the error of \<^verbatim>\<open>DecodeElement\<close> on the element and the value
  it leaves in a target of each of the three types (on an error, whatever was filled in
  before the error).
\<close>

record decoding =
  dec_err :: "error option"
  dec_hello :: HelloMessage
  dec_reply :: RPCReply
  dec_notif :: NotificationMessage

datatype input =
  TokenError error
| OtherToken
| StartElement xml_Name decoding

subsection \<open>The session\<close>

type_synonym chan = "nat option"

datatype framing = EndOfMessage | Chunked

datatype envelope = HelloEnv HelloMessage | RPCEnv RPCMessage

record sesImpl =
  \<comment> \<open>the fields of the struct\<close>
  pool :: "chan list"
  responseq :: "chan list"
  subchan :: chan
  hello :: "HelloMessage option"
  \<comment> \<open>\<^verbatim>\<open>t\<close>, \<^verbatim>\<open>dec\<close>, \<^verbatim>\<open>enc\<close>, \<^verbatim>\<open>evtlog\<close>: envelopes written to the transport, the
      framing mode of both codecs, the lines logged\<close>
  written :: "envelope list"
  framing_mode :: framing
  evtlog :: "string list"
  stdout :: "string list"
  \<comment> \<open>\<^verbatim>\<open>hellochan\<close>: whether \<^verbatim>\<open>NewSession\<close> is blocked receiving from it, whether it
      is closed\<close>
  hello_wait :: bool
  hello_closed :: bool
  \<comment> \<open>reply channels: the closed ones, the next identifier \<^verbatim>\<open>make\<close> returns, and the
      delivery goroutines the loop has started whose send \<^verbatim>\<open>ch <- r\<close> has not
      completed\<close>
  rclosed :: "nat set"
  nextch :: nat
  tasks :: "(chan \<times> RPCReply) list"
  \<comment> \<open>notification channels: the closed ones, the ones whose receiver is ready, and
      the values sent so far\<close>
  nclosed :: "nat set"
  nready :: "nat set"
  nsent :: "(nat \<times> Notification) list"

definition encode :: "sesImpl \<Rightarrow> envelope \<Rightarrow> error option \<Rightarrow> sesImpl \<times> error option" where
  \<comment> \<open>\<^verbatim>\<open>si.enc.encode(msg)\<close>; the third argument is what the encoder and the transport
      answer to this call\<close>
  "encode si msg res =
     (case res of
        None \<Rightarrow> (si\<lparr>written := written si @ [msg]\<rparr>, None)
      | Some e \<Rightarrow> (si, Some e))"

definition allocChan :: "sesImpl \<Rightarrow> chan \<times> sesImpl" where
  "allocChan si =
     (let l = length (pool si) in
      if l = 0 then (Some (nextch si), si\<lparr>nextch := Suc (nextch si)\<rparr>)
      else (pool si ! (l - 1), si\<lparr>pool := take (l - 1) (pool si)\<rparr>))"

definition relChan :: "sesImpl \<Rightarrow> chan \<Rightarrow> sesImpl" where
  "relChan si ch = si\<lparr>pool := pool si @ [ch]\<rparr>"

definition pushRespChan :: "sesImpl \<Rightarrow> chan \<Rightarrow> sesImpl" where
  "pushRespChan si ch = si\<lparr>responseq := responseq si @ [ch]\<rparr>"

definition popRespChan :: "sesImpl \<Rightarrow> chan \<times> sesImpl" where
  "popRespChan si =
     (case responseq si of
        [] \<Rightarrow> (None, si)
      | c # q \<Rightarrow> (c, si\<lparr>responseq := q\<rparr>))"

definition close_reply_chan :: "nat \<Rightarrow> sesImpl \<Rightarrow> sesImpl option" where
  \<comment> \<open>\<^verbatim>\<open>close(ch)\<close> on a reply channel: closing a closed channel panics, and so does
      every goroutine blocked sending on the channel that is closed; \<open>None\<close> is the panic\<close>
  "close_reply_chan c si =
     (if c \<in> rclosed si then None
      else if Some c \<in> fst ` set (tasks si) then None
      else Some (si\<lparr>rclosed := insert c (rclosed si)\<rparr>))"

function closeAllResponseChannels :: "sesImpl \<Rightarrow> sesImpl option" where
  "closeAllResponseChannels si =
     (case popRespChan si of
        (None, si') \<Rightarrow> Some si'
      | (Some c, si') \<Rightarrow>
          (case close_reply_chan c si' of
             None \<Rightarrow> None
           | Some si'' \<Rightarrow> closeAllResponseChannels si''))"
  by pat_completeness auto
termination
  by (relation "measure (\<lambda>si. length (responseq si))")
     (auto simp: popRespChan_def close_reply_chan_def split: list.splits if_splits)

definition closeChannels :: "sesImpl \<Rightarrow> sesImpl option" where
  "closeChannels si =
     (if hello_closed si then None
      else
        let si1 = si\<lparr>hello_closed := True, hello_wait := False\<rparr> in
        (case subchan si1 of
           None \<Rightarrow> closeAllResponseChannels si1
         | Some n \<Rightarrow>
             if n \<in> nclosed si1 then None
             else closeAllResponseChannels (si1\<lparr>nclosed := insert n (nclosed si1)\<rparr>)))"

subsection \<open>Submitting requests\<close>

definition ExecuteAsync ::
  "sesImpl \<Rightarrow> string \<Rightarrow> Request \<Rightarrow> chan \<Rightarrow> error option \<Rightarrow> sesImpl \<times> error option" where
  \<comment> \<open>the second argument is the identifier \<^verbatim>\<open>uuid.NewV4().String()\<close> returns\<close>
  "ExecuteAsync si mid req rchan res =
     (let msg = \<lparr>MessageID = mid, Methods = req\<rparr>;
          si1 = pushRespChan si rchan
      in encode si1 (RPCEnv msg) res)"

datatype recv = RecvBlocks | Recv "RPCReply option" sesImpl

fun take_task :: "nat \<Rightarrow> (chan \<times> RPCReply) list \<Rightarrow> (RPCReply \<times> (chan \<times> RPCReply) list) option" where
  "take_task c [] = None"
| "take_task c ((ch, r) # ts) =
     (if ch = Some c then Some (r, ts)
      else (case take_task c ts of
              None \<Rightarrow> None
            | Some (v, ts') \<Rightarrow> Some (v, (ch, r) # ts')))"

definition recv_reply :: "sesImpl \<Rightarrow> chan \<Rightarrow> recv" where
  \<comment> \<open>\<^verbatim>\<open><-rchan\<close>: a nil channel blocks for ever, a closed one gives \<^verbatim>\<open>nil\<close>, an open one
      gives the value of the first goroutine blocked sending on it, or blocks\<close>
  "recv_reply si rchan =
     (case rchan of
        None \<Rightarrow> RecvBlocks
      | Some c \<Rightarrow>
          if c \<in> rclosed si then Recv None si
          else (case take_task c (tasks si) of
                  None \<Rightarrow> RecvBlocks
                | Some (r, ts) \<Rightarrow> Recv (Some r) (si\<lparr>tasks := ts\<rparr>)))"

datatype 'a call = Returns 'a sesImpl | Blocks

definition Execute_submit ::
  "sesImpl \<Rightarrow> string \<Rightarrow> Request \<Rightarrow> error option \<Rightarrow> (sesImpl \<times> error) + (sesImpl \<times> chan)" where
  \<comment> \<open>\<^verbatim>\<open>Execute\<close> up to its receive: \<open>Inl\<close> is the return of \<^verbatim>\<open>(nil, err)\<close>, after the
      deferred \<^verbatim>\<open>relChan\<close>; \<open>Inr\<close> is the caller about to receive on its channel\<close>
  "Execute_submit si mid req res =
     (let (rchan, si1) = allocChan si;
          (si2, err) = ExecuteAsync si1 mid req rchan res
      in case err of
           Some e \<Rightarrow> Inl (relChan si2 rchan, e)
         | None \<Rightarrow> Inr (si2, rchan))"

definition Execute_receive :: "sesImpl \<Rightarrow> chan \<Rightarrow> (RPCReply option \<times> error option) call" where
  \<comment> \<open>\<^verbatim>\<open>reply := <-rchan; return reply, nil\<close>, then the deferred \<^verbatim>\<open>relChan\<close>\<close>
  "Execute_receive si rchan =
     (case recv_reply si rchan of
        RecvBlocks \<Rightarrow> Blocks
      | Recv reply si1 \<Rightarrow> Returns (reply, None) (relChan si1 rchan))"

definition Subscribe_submit ::
  "sesImpl \<Rightarrow> string \<Rightarrow> Request \<Rightarrow> chan \<Rightarrow> error option \<Rightarrow> (sesImpl \<times> error) + (sesImpl \<times> chan)" where
  "Subscribe_submit si mid req nchan res =
     (let (rchan, si1) = allocChan si;
          (si2, err) = ExecuteAsync si1 mid req rchan res
      in case err of
           Some e \<Rightarrow> Inl (relChan si2 rchan, e)
         | None \<Rightarrow> Inr (si2\<lparr>subchan := nchan\<rparr>, rchan))"

definition Subscribe_receive :: "sesImpl \<Rightarrow> chan \<Rightarrow> (RPCReply option \<times> error option) call" where
  "Subscribe_receive si rchan =
     (case recv_reply si rchan of
        RecvBlocks \<Rightarrow> Blocks
      | Recv reply si1 \<Rightarrow> Returns (reply, None) (relChan si1 rchan))"

definition Close :: "sesImpl \<Rightarrow> error option \<Rightarrow> sesImpl" where
  \<comment> \<open>the second argument is what \<^verbatim>\<open>si.t.Close()\<close> returns; the dispatch loop then reads
      an error from the closed transport\<close>
  "Close si res =
     (case res of
        None \<Rightarrow> si
      | Some err \<Rightarrow>
          si\<lparr>evtlog := evtlog si @ [''Session close failed '' @ error_text err @ [CHR 0x0A]]\<rparr>)"

subsection \<open>The dispatch loop\<close>

datatype step = Next sesImpl | Exit sesImpl | Stall sesImpl | StepPanic

definition logf :: "sesImpl \<Rightarrow> string \<Rightarrow> sesImpl" where
  "logf si line = si\<lparr>evtlog := evtlog si @ [line]\<rparr>"

definition notification_text :: "NotificationMessage \<Rightarrow> string" where
  \<comment> \<open>\<^verbatim>\<open>fmt.Sprintf(`<%s xmlns="%s">%s</%s>`, ...)\<close>\<close>
  "notification_text result =
     ''<'' @ Local (ev_XMLName (nm_Event result)) @ '' xmlns='' @ [CHR 0x22]
       @ Space (ev_XMLName (nm_Event result)) @ [CHR 0x22] @ ''>''
       @ ev_Event (nm_Event result)
       @ ''</'' @ Local (ev_XMLName (nm_Event result)) @ ''>''"

definition iteration :: "input \<Rightarrow> sesImpl \<Rightarrow> step" where
  \<comment> \<open>the body of the \<^verbatim>\<open>for\<close> of \<^verbatim>\<open>handleInput\<close>\<close>
  "iteration i si =
     (case i of
        TokenError err \<Rightarrow>
          Exit (if err \<noteq> EOF then logf si (''Token() error: '' @ error_text err @ [CHR 0x0A]) else si)
      | OtherToken \<Rightarrow> Next si
      | StartElement name d \<Rightarrow>
          if name = nameHello then
            (case dec_err d of
               Some err \<Rightarrow>
                 Exit (logf si (''DecodeElement() error: '' @ error_text err @ [CHR 0x0A]))
             | None \<Rightarrow>
                 if hello_closed si then StepPanic
                 else if hello_wait si
                   then Next (si\<lparr>hello := Some (dec_hello d), hello_wait := False\<rparr>)
                 else Stall si)
          else if name = nameRPCReply then
            (case dec_err d of
               Some err \<Rightarrow>
                 Exit (logf si (''DecodeElement() error: '' @ error_text err @ [CHR 0x0A]))
             | None \<Rightarrow>
                 let (respch, si1) = popRespChan si
                 in Next (si1\<lparr>tasks := tasks si1 @ [(respch, dec_reply d)]\<rparr>))
          else if name = notification then
            (let result = dec_notif d;
                 n = notification_text result
             in case subchan si of
                  None \<Rightarrow> Next si
                | Some c \<Rightarrow>
                    if c \<in> nclosed si then StepPanic
                    else if c \<in> nready si then
                      Next (si\<lparr>nsent := nsent si @
                        [(c, \<lparr>n_XMLName = ev_XMLName (nm_Event result),
                              n_EventTime = nm_EventTime result, n_Event = n\<rparr>)]\<rparr>)
                    else Stall si)
          else Next (si\<lparr>stdout := stdout si @
                 [''Unexpected element:{'' @ Space name @ '' '' @ Local name @ ''}'' @ [CHR 0x0A]]\<rparr>))"

datatype loop = Reading sesImpl | Finished sesImpl | Stuck sesImpl | Crashed

fun handleInput :: "input list \<Rightarrow> sesImpl \<Rightarrow> loop" where
  \<comment> \<open>\<open>Reading\<close>: the input so far is used up and the loop is blocked in \<^verbatim>\<open>Token()\<close>;
      \<open>Finished\<close>: the loop has left and the deferred \<^verbatim>\<open>closeChannels\<close> has run\<close>
  "handleInput [] si = Reading si"
| "handleInput (i # rest) si =
     (case iteration i si of
        Next si' \<Rightarrow> handleInput rest si'
      | Exit si' \<Rightarrow> (case closeChannels si' of None \<Rightarrow> Crashed | Some si'' \<Rightarrow> Finished si'')
      | Stall si' \<Rightarrow> Stuck si'
      | StepPanic \<Rightarrow> Crashed)"

subsection \<open>Session construction\<close>

definition new_sesImpl :: sesImpl where
  \<comment> \<open>\<^verbatim>\<open>&sesImpl{t: t, dec: dec, enc: enc, ..., hellochan: make(chan *HelloMessage)}\<close>\<close>
  "new_sesImpl =
     \<lparr>pool = [], responseq = [], subchan = None, hello = None,
      written = [], framing_mode = EndOfMessage, evtlog = [], stdout = [],
      hello_wait = False, hello_closed = False,
      rclosed = {}, nextch = 0, tasks = [],
      nclosed = {}, nready = {}, nsent = []\<rparr>"

datatype wait = Received sesImpl "input list" | Hangs | WaitCrashed

fun await_hello :: "input list \<Rightarrow> sesImpl \<Rightarrow> wait" where
  \<comment> \<open>\<^verbatim>\<open><-sess.hellochan\<close> while the dispatch loop runs: the receive ends when the loop
      sends a hello or closes the channel; the input that is left is returned with it\<close>
  "await_hello [] si = Hangs"
| "await_hello (i # rest) si =
     (case iteration i si of
        Next si' \<Rightarrow> if hello_wait si' then await_hello rest si' else Received si' rest
      | Exit si' \<Rightarrow> (case closeChannels si' of None \<Rightarrow> WaitCrashed | Some si'' \<Rightarrow> Received si'' [])
      | Stall si' \<Rightarrow> Hangs
      | StepPanic \<Rightarrow> WaitCrashed)"

fun negotiate :: "string list \<Rightarrow> string list \<times> bool \<Rightarrow> string list \<times> bool" where
  \<comment> \<open>the \<^verbatim>\<open>for ... range sess.hello.Capabilities\<close> of \<^verbatim>\<open>NewSession\<close>, on the pair
      \<^verbatim>\<open>(helloresp.Capabilities, chunkedFraming)\<close>\<close>
  "negotiate [] acc = acc"
| "negotiate (capability # rest) acc =
     (if capability = CapBase11 then ([CapBase11], True) else negotiate rest acc)"

datatype construction = Session sesImpl "input list" | Error error | Panic | NoReturn

definition NewSession :: "input list \<Rightarrow> error option \<Rightarrow> construction" where
  \<comment> \<open>the arguments are what the transport delivers and what the encoder answers to
      the hello response; \<open>Panic\<close> is the nil pointer dereference of
      \<^verbatim>\<open>sess.hello.Capabilities\<close>, \<open>NoReturn\<close> a receive that never ends\<close>
  "NewSession ins res =
     (let sess = new_sesImpl\<lparr>hello_wait := True\<rparr> in
      case await_hello ins sess of
        Hangs \<Rightarrow> NoReturn
      | WaitCrashed \<Rightarrow> Panic
      | Received si rest \<Rightarrow>
          (case hello si of
             None \<Rightarrow> Panic
           | Some h \<Rightarrow>
               let (caps, chunkedFraming) = negotiate (Capabilities h) (DefaultCapabilities, False);
                   helloresp = \<lparr>Capabilities = caps\<rparr>;
                   (si1, err) = encode si (HelloEnv helloresp) res
               in case err of
                    Some e \<Rightarrow> Error e
                  | None \<Rightarrow>
                      Session (if chunkedFraming then si1\<lparr>framing_mode := Chunked\<rparr> else si1) rest))"

subsection \<open>Runs of the session\<close>

text \<open>
  An event is one atomic step of a caller or of the dispatch loop; a run is a sequence of
  events each of which can happen (\<open>None\<close>: the step blocks or panics in that state).
\<close>

datatype event =
  CallExecuteAsync string Request chan "error option"
| CallExecute string Request "error option"
| ResumeExecute chan
| CallSubscribe string Request chan "error option"
| ResumeSubscribe chan
| Receive chan
| Incoming input

definition exec :: "event \<Rightarrow> sesImpl \<Rightarrow> sesImpl option" where
  "exec ev si =
     (case ev of
        CallExecuteAsync mid req rchan res \<Rightarrow> Some (fst (ExecuteAsync si mid req rchan res))
      | CallExecute mid req res \<Rightarrow>
          (case Execute_submit si mid req res of
             Inl (si', e) \<Rightarrow> Some si'
           | Inr (si', rchan) \<Rightarrow> Some si')
      | ResumeExecute rchan \<Rightarrow>
          (case Execute_receive si rchan of Blocks \<Rightarrow> None | Returns v si' \<Rightarrow> Some si')
      | CallSubscribe mid req nchan res \<Rightarrow>
          (case Subscribe_submit si mid req nchan res of
             Inl (si', e) \<Rightarrow> Some si'
           | Inr (si', rchan) \<Rightarrow> Some si')
      | ResumeSubscribe rchan \<Rightarrow>
          (case Subscribe_receive si rchan of Blocks \<Rightarrow> None | Returns v si' \<Rightarrow> Some si')
      | Receive rchan \<Rightarrow>
          (case recv_reply si rchan of RecvBlocks \<Rightarrow> None | Recv v si' \<Rightarrow> Some si')
      | Incoming i \<Rightarrow>
          if hello_closed si then None
          else (case iteration i si of
                  Next si' \<Rightarrow> Some si'
                | Exit si' \<Rightarrow> closeChannels si'
                | Stall si' \<Rightarrow> None
                | StepPanic \<Rightarrow> None))"

fun run :: "event list \<Rightarrow> sesImpl \<Rightarrow> sesImpl option" where
  "run [] si = Some si"
| "run (ev # evs) si = (case exec ev si of None \<Rightarrow> None | Some si' \<Rightarrow> run evs si')"

fun submitted :: "event list \<Rightarrow> chan list" where
  "submitted [] = []"
| "submitted (CallExecuteAsync mid req rchan res # evs) = rchan # submitted evs"
| "submitted (ev # evs) = submitted evs"

fun requests :: "event list \<Rightarrow> envelope list" where
  "requests [] = []"
| "requests (CallExecuteAsync mid req rchan res # evs) =
     RPCEnv \<lparr>MessageID = mid, Methods = req\<rparr> # requests evs"
| "requests (ev # evs) = requests evs"

fun replies :: "event list \<Rightarrow> RPCReply list" where
  "replies [] = []"
| "replies (Incoming (StartElement name d) # evs) = dec_reply d # replies evs"
| "replies (ev # evs) = replies evs"

fun in_order :: "nat \<Rightarrow> event list \<Rightarrow> bool" where
  \<comment> \<open>a run of \<^verbatim>\<open>ExecuteAsync\<close> calls whose requests are written and of decoded
      rpc-replies, each reply arriving while a request is outstanding (the first
      argument counts the outstanding requests)\<close>
  "in_order n [] = True"
| "in_order n (CallExecuteAsync mid req rchan res # evs) = (res = None \<and> in_order (Suc n) evs)"
| "in_order n (Incoming (StartElement name d) # evs) =
     (name = nameRPCReply \<and> dec_err d = None \<and> 0 < n \<and> in_order (n - 1) evs)"
| "in_order n (ev # evs) = False"



definition elem :: "xml_Name \<Rightarrow> decoding" where
  \<comment> \<open>an element that decodes without error into empty messages\<close>
  "elem name =
     \<lparr>dec_err = None, dec_hello = \<lparr>Capabilities = []\<rparr>, dec_reply = [],
      dec_notif = \<lparr>nm_EventTime = [], nm_Event = \<lparr>ev_XMLName = name, ev_Event = []\<rparr>\<rparr>\<rparr>"

definition hello_in :: "string list \<Rightarrow> input" where
  "hello_in caps = StartElement nameHello ((elem nameHello)\<lparr>dec_hello := \<lparr>Capabilities = caps\<rparr>\<rparr>)"

definition reply_in :: "RPCReply \<Rightarrow> input" where
  "reply_in r = StartElement nameRPCReply ((elem nameRPCReply)\<lparr>dec_reply := r\<rparr>)"

definition nil_tasks :: "sesImpl \<Rightarrow> (chan \<times> RPCReply) list" where
  \<comment> \<open>the delivery goroutines blocked sending on the nil channel\<close>
  "nil_tasks si = filter (\<lambda>t. fst t = None) (tasks si)"

definition negotiated :: sesImpl where
  \<comment> \<open>the session \<^verbatim>\<open>NewSession\<close> returns when the server's hello holds base:1.0 only\<close>
  "negotiated =
     new_sesImpl\<lparr>hello := Some \<lparr>Capabilities = [CapBase10]\<rparr>,
                 written := [HelloEnv \<lparr>Capabilities = [CapBase10]\<rparr>]\<rparr>"

definition pending_after_nil :: sesImpl where
  \<comment> \<open>two requests outstanding, the first submitted with a nil channel\<close>
  "pending_after_nil =
     fst (ExecuteAsync (fst (ExecuteAsync negotiated ''1'' ''<a/>'' None None))
            ''2'' ''<b/>'' (Some 1) None)"

definition pending_twice :: sesImpl where
  \<comment> \<open>three requests outstanding, the first two submitted with the same channel\<close>
  "pending_twice =
     fst (ExecuteAsync (fst (ExecuteAsync (fst (ExecuteAsync negotiated
            ''1'' ''<a/>'' (Some 1) None)) ''2'' ''<b/>'' (Some 1) None))
            ''3'' ''<c/>'' (Some 2) None)"


definition misrouted :: "event list" where
  \<comment> \<open>a call whose encoding fails, a call whose request is written, and the reply to the
      one request that was written\<close>
  "misrouted =
     [CallExecuteAsync ''1'' ''<a/>'' (Some 5) (Some (Failure ''broken pipe'')),
      CallExecuteAsync ''2'' ''<b/>'' (Some 6) None,
      Incoming (reply_in ''reply-to-b'')]"

definition misrouted_state :: sesImpl where
  "misrouted_state =
     negotiated\<lparr>written := written negotiated @ [RPCEnv \<lparr>MessageID = ''2'', Methods = ''<b/>''\<rparr>],
                responseq := [Some 6],
                tasks := [(Some 5, ''reply-to-b'')]\<rparr>"

definition failed_Execute :: "sesImpl \<Rightarrow> sesImpl" where
  \<comment> \<open>the session after an \<^verbatim>\<open>Execute\<close> on which the encoder fails\<close>
  "failed_Execute si =
     (case Execute_submit si ''1'' ''<get/>'' (Some (Failure ''broken pipe'')) of
        Inl (si', e) \<Rightarrow> si'
      | Inr (si', rchan) \<Rightarrow> si')"

definition failed_Subscribe :: "sesImpl \<Rightarrow> sesImpl" where
  \<comment> \<open>the session after a \<^verbatim>\<open>Subscribe\<close> on which the encoder fails\<close>
  "failed_Subscribe si =
     (case Subscribe_submit si ''1'' ''<create-subscription/>'' (Some 7) (Some (Failure ''broken pipe'')) of
        Inl (si', e) \<Rightarrow> si'
      | Inr (si', rchan) \<Rightarrow> si')"

definition resubmitted :: sesImpl where
  \<comment> \<open>a \<^verbatim>\<open>Subscribe\<close> on which the encoder fails, then an \<^verbatim>\<open>Execute\<close> whose request is
      written and which waits for its reply\<close>
  "resubmitted =
     (case Execute_submit (failed_Subscribe negotiated) ''2'' ''<get/>'' None of
        Inl (si', e) \<Rightarrow> si'
      | Inr (si', rchan) \<Rightarrow> si')"


definition link_up_notification :: "error option \<Rightarrow> decoding" where
  "link_up_notification err =
     \<lparr>dec_err = err, dec_hello = \<lparr>Capabilities = []\<rparr>, dec_reply = [],
      dec_notif = \<lparr>nm_EventTime = ''2018-01-01T00:00:00Z'',
        nm_Event = \<lparr>ev_XMLName = \<lparr>Space = ''urn:x'', Local = ''link-up''\<rparr>,
                    ev_Event = ''<if>eth0</if>''\<rparr>\<rparr>\<rparr>"

section \<open>Properties\<close>

declare closeAllResponseChannels.simps [simp del]

subsection \<open>The element names\<close>

lemma names_distinct:
  "nameHello \<noteq> nameRPCReply" "nameHello \<noteq> notification" "nameRPCReply \<noteq> notification"
  "nameRPCReply \<noteq> nameHello" "notification \<noteq> nameHello" "notification \<noteq> nameRPCReply"
  by (simp_all add: nameHello_def nameRPCReply_def notification_def netconfNS_def
        netconfNotifyNS_def)

subsection \<open>Draining the queue\<close>



lemma closeAll_tasks:
  "closeAllResponseChannels si = Some si' \<Longrightarrow> tasks si' = tasks si"
proof (induction si rule: closeAllResponseChannels.induct)
  case (1 si)
  show ?case
  proof (cases "popRespChan si")
    case (Pair ch si1)
    then have t1: "tasks si1 = tasks si"
      by (auto simp: popRespChan_def split: list.splits)
    show ?thesis
    proof (cases ch)
      case None
      with Pair "1.prems" t1 show ?thesis
        by (simp add: closeAllResponseChannels.simps [of si])
    next
      case (Some c)
      with Pair "1.prems" obtain si2 where cl: "close_reply_chan c si1 = Some si2"
          and rest: "closeAllResponseChannels si2 = Some si'"
        by (auto simp: closeAllResponseChannels.simps [of si] split: option.splits)
      from cl have t2: "tasks si2 = tasks si1"
        by (auto simp: close_reply_chan_def split: if_splits)
      from "1.IH" [OF Pair [symmetric] _ cl rest] Some t1 t2 show ?thesis by simp
    qed
  qed
qed

lemma closeChannels_tasks:
  "closeChannels si = Some si' \<Longrightarrow> tasks si' = tasks si"
  by (auto simp: closeChannels_def Let_def split: if_splits option.splits dest!: closeAll_tasks)

subsection \<open>Runs\<close>

lemma exec_submit_ok:
  "exec (CallExecuteAsync mid req ch None) si =
     Some (si\<lparr>responseq := responseq si @ [ch],
              written := written si @ [RPCEnv \<lparr>MessageID = mid, Methods = req\<rparr>]\<rparr>)"
  by (simp add: exec_def ExecuteAsync_def pushRespChan_def encode_def Let_def)

lemma exec_reply_ok:
  "\<not> hello_closed si \<Longrightarrow> dec_err d = None \<Longrightarrow> responseq si = c # q \<Longrightarrow>
   exec (Incoming (StartElement nameRPCReply d)) si =
     Some (si\<lparr>responseq := q, tasks := tasks si @ [(c, dec_reply d)]\<rparr>)"
  by (simp add: exec_def iteration_def names_distinct popRespChan_def)

lemma in_order_run:
  "in_order n evs \<Longrightarrow> n = length (responseq si) \<Longrightarrow> \<not> hello_closed si \<Longrightarrow>
   \<exists>si'. run evs si = Some si'
     \<and> tasks si' = tasks si @ zip (responseq si @ submitted evs) (replies evs)
     \<and> responseq si' = drop (length (replies evs)) (responseq si @ submitted evs)
     \<and> written si' = written si @ requests evs
     \<and> rclosed si' = rclosed si"
proof (induction n evs arbitrary: si rule: in_order.induct)
  case (1 n)
  then show ?case by simp
next
  case (2 n mid req rchan res evs)
  let ?s1 = "si\<lparr>responseq := responseq si @ [rchan],
              written := written si @ [RPCEnv \<lparr>MessageID = mid, Methods = req\<rparr>]\<rparr>"
  from "2.prems" have res: "res = None" and io: "in_order (Suc n) evs" by simp_all
  have ex: "exec (CallExecuteAsync mid req rchan res) si = Some ?s1"
    unfolding res by (rule exec_submit_ok)
  from "2.IH" [OF io, of ?s1] "2.prems"
  obtain si' where "run evs ?s1 = Some si'"
    "tasks si' = tasks ?s1 @ zip (responseq ?s1 @ submitted evs) (replies evs)"
    "responseq si' = drop (length (replies evs)) (responseq ?s1 @ submitted evs)"
    "written si' = written ?s1 @ requests evs" "rclosed si' = rclosed ?s1"
    by auto
  with ex show ?case by simp
next
  case (3 n name d evs)
  from "3.prems" have nm: "name = nameRPCReply" and ok: "dec_err d = None"
    and pos: "0 < n" and io: "in_order (n - 1) evs" by simp_all
  from pos "3.prems" obtain c q where q: "responseq si = c # q"
    by (cases "responseq si") auto
  let ?s1 = "si\<lparr>responseq := q, tasks := tasks si @ [(c, dec_reply d)]\<rparr>"
  have ex: "exec (Incoming (StartElement name d)) si = Some ?s1"
    unfolding nm using "3.prems" ok q by (intro exec_reply_ok) auto
  from "3.IH" [OF io, of ?s1] "3.prems" q
  obtain si' where "run evs ?s1 = Some si'"
    "tasks si' = tasks ?s1 @ zip (responseq ?s1 @ submitted evs) (replies evs)"
    "responseq si' = drop (length (replies evs)) (responseq ?s1 @ submitted evs)"
    "written si' = written ?s1 @ requests evs" "rclosed si' = rclosed ?s1"
    by auto
  with ex q show ?case by simp
qed simp_all

lemma in_order_length:
  "in_order n evs \<Longrightarrow> length (replies evs) \<le> n + length (submitted evs)"
  by (induction n evs rule: in_order.induct) auto

lemma take_task_zip_exact:
  "distinct cs \<Longrightarrow> i < length rs \<Longrightarrow> length rs \<le> length cs \<Longrightarrow> cs ! i = Some c \<Longrightarrow>
   take_task c (zip cs rs) = Some (rs ! i, take i (zip cs rs) @ drop (Suc i) (zip cs rs))"
proof (induction cs arbitrary: i rs)
  case Nil
  then show ?case by simp
next
  case (Cons x cs)
  then obtain y rs' where rs: "rs = y # rs'" by (cases rs) auto
  show ?case
  proof (cases i)
    case 0
    with Cons.prems rs show ?thesis by simp
  next
    case (Suc j)
    with Cons.prems rs have j: "j < length rs'" "length rs' \<le> length cs" "cs ! j = Some c"
      by simp_all
    then have "j < length cs" by simp
    with j have "Some c \<in> set cs" by (metis nth_mem)
    with Cons.prems have "x \<noteq> Some c" by auto
    moreover from Cons.IH [OF _ j] Cons.prems
    have "take_task c (zip cs rs')
        = Some (rs' ! j, take j (zip cs rs') @ drop (Suc j) (zip cs rs'))" by auto
    ultimately show ?thesis using rs Suc by simp
  qed
qed

text \<open>
  When every request is written: in a run of \<^verbatim>\<open>ExecuteAsync\<close> calls on which the encoder
  does not fail and of decoded rpc-replies, each arriving while a request is outstanding,
  the requests are written in the order of the calls, the \<open>i\<close>-th reply is handed to a
  delivery goroutine for the channel of the \<open>i\<close>-th call, and the channels of the calls
  not yet answered stay queued in order. When the channels are distinct, open and not
  nil, a receive on the \<open>i\<close>-th channel takes the \<open>i\<close>-th reply and leaves every other
  pending delivery in place.
\<close>

lemma fifo_when_written:
  assumes "in_order 0 evs" and "responseq si = []" and "\<not> hello_closed si"
  shows "\<exists>si'. run evs si = Some si'
     \<and> written si' = written si @ requests evs
     \<and> tasks si' = tasks si @ zip (submitted evs) (replies evs)
     \<and> responseq si' = drop (length (replies evs)) (submitted evs)
     \<and> (tasks si = [] \<and> distinct (submitted evs)
          \<and> list_all (\<lambda>ch. case ch of None \<Rightarrow> False | Some c \<Rightarrow> c \<notin> rclosed si) (submitted evs)
        \<longrightarrow> (\<forall>i < length (replies evs).
               recv_reply si' (submitted evs ! i)
                 = Recv (Some (replies evs ! i))
                     (si'\<lparr>tasks := take i (zip (submitted evs) (replies evs))
                                    @ drop (Suc i) (zip (submitted evs) (replies evs))\<rparr>)))"
proof -
  from in_order_run [OF assms(1) _ assms(3)] assms(2)
  obtain si' where r: "run evs si = Some si'"
    and t: "tasks si' = tasks si @ zip (submitted evs) (replies evs)"
    and q: "responseq si' = drop (length (replies evs)) (submitted evs)"
    and w: "written si' = written si @ requests evs"
    and c: "rclosed si' = rclosed si"
    by auto
  have len: "length (replies evs) \<le> length (submitted evs)"
    using in_order_length [OF assms(1)] by simp
  have "recv_reply si' (submitted evs ! i)
          = Recv (Some (replies evs ! i))
              (si'\<lparr>tasks := take i (zip (submitted evs) (replies evs))
                             @ drop (Suc i) (zip (submitted evs) (replies evs))\<rparr>)"
    if e: "tasks si = []" and d: "distinct (submitted evs)"
      and o: "list_all (\<lambda>ch. case ch of None \<Rightarrow> False | Some c \<Rightarrow> c \<notin> rclosed si) (submitted evs)"
      and i: "i < length (replies evs)" for i
  proof -
    from i len have "submitted evs ! i \<in> set (submitted evs)" by simp
    with o obtain k where k: "submitted evs ! i = Some k" "k \<notin> rclosed si"
      by (auto simp: list_all_iff split: option.splits)
    from take_task_zip_exact [OF d i len k(1)] k c t e show ?thesis
      by (simp add: recv_reply_def)
  qed
  with r t q w show ?thesis by blast
qed

subsection \<open>C1: replies are correlated with requests by position\<close>

text \<open>
  C1. The correlation is by position in the queue alone, and a call whose encoding fails
  keeps its position: \<^verbatim>\<open>ExecuteAsync\<close> queues the channel before it encodes, and
  nothing takes the channel off the queue when the encoder fails. After the handshake, a
  call on channel 5 whose encoding fails and a call on channel 6 whose request is written:
  the reply to the one request written is handed to the delivery goroutine for channel 5.
  The caller that was given an error receives the reply, and a receive on channel 6, the
  caller whose request the peer answered, blocks.
\<close>

theorem reply_after_failed_submission:
  "submitted misrouted = [Some 5, Some 6]
   \<and> requests misrouted = [RPCEnv \<lparr>MessageID = ''1'', Methods = ''<a/>''\<rparr>,
                             RPCEnv \<lparr>MessageID = ''2'', Methods = ''<b/>''\<rparr>]
   \<and> replies misrouted = [''reply-to-b'']
   \<and> run misrouted negotiated = Some misrouted_state
   \<and> written misrouted_state = [HelloEnv \<lparr>Capabilities = [CapBase10]\<rparr>,
                                   RPCEnv \<lparr>MessageID = ''2'', Methods = ''<b/>''\<rparr>]
   \<and> tasks misrouted_state = [(Some 5, ''reply-to-b'')]
   \<and> recv_reply misrouted_state (Some 6) = RecvBlocks
   \<and> recv_reply misrouted_state (Some 5)
       = Recv (Some ''reply-to-b'') (misrouted_state\<lparr>tasks := []\<rparr>)"
  by (simp add: misrouted_def misrouted_state_def negotiated_def new_sesImpl_def reply_in_def
        elem_def exec_def ExecuteAsync_def pushRespChan_def encode_def iteration_def
        names_distinct popRespChan_def recv_reply_def Let_def)

subsection \<open>Waiting for the hello\<close>

lemma iteration_OtherToken: "iteration OtherToken si = Next si"
  by (simp add: iteration_def)

lemma await_hello_skip:
  "hello_wait si \<Longrightarrow> await_hello (replicate n OtherToken @ ins) si = await_hello ins si"
  by (induction n) (simp_all add: iteration_OtherToken)

lemma negotiate_eq:
  "negotiate caps acc = (if CapBase11 \<in> set caps then ([CapBase11], True) else acc)"
  by (induction caps) simp_all

lemma closeAll_hello_closed:
  "closeAllResponseChannels si = Some si' \<Longrightarrow> hello_closed si' = hello_closed si"
proof (induction si rule: closeAllResponseChannels.induct)
  case (1 si)
  show ?case
  proof (cases "popRespChan si")
    case (Pair ch si1)
    then have t1: "hello_closed si1 = hello_closed si"
      by (auto simp: popRespChan_def split: list.splits)
    show ?thesis
    proof (cases ch)
      case None
      with Pair "1.prems" t1 show ?thesis
        by (simp add: closeAllResponseChannels.simps [of si])
    next
      case (Some c)
      with Pair "1.prems" obtain si2 where cl: "close_reply_chan c si1 = Some si2"
          and rest: "closeAllResponseChannels si2 = Some si'"
        by (auto simp: closeAllResponseChannels.simps [of si] split: option.splits)
      from cl have t2: "hello_closed si2 = hello_closed si1"
        by (auto simp: close_reply_chan_def split: if_splits)
      from "1.IH" [OF Pair [symmetric] _ cl rest] Some t1 t2 show ?thesis by simp
    qed
  qed
qed

lemma closeChannels_hello_closed: "closeChannels si = Some si' \<Longrightarrow> hello_closed si'"
  by (auto simp: closeChannels_def Let_def split: if_splits option.splits
        dest!: closeAll_hello_closed)

lemma iteration_Next_hello_closed:
  "iteration i si = Next si' \<Longrightarrow> hello_closed si' = hello_closed si"
  by (auto simp: iteration_def Let_def popRespChan_def
        split: input.splits option.splits if_splits prod.splits list.splits)

text \<open>
  The receive of \<^verbatim>\<open>NewSession\<close> and the loop agree: when the receive ends, the loop
  either has left (the hello channel is closed) or goes on with the input that is left.
\<close>

lemma await_hello_handleInput:
  "await_hello ins si = Received si' rest \<Longrightarrow> \<not> hello_closed si \<Longrightarrow>
   handleInput ins si = (if hello_closed si' then Finished si' else handleInput rest si')"
proof (induction ins arbitrary: si)
  case Nil
  then show ?case by simp
next
  case (Cons i ins)
  show ?case
  proof (cases "iteration i si")
    case (Next s1)
    with Cons.prems have c: "\<not> hello_closed s1"
      by (simp add: iteration_Next_hello_closed)
    show ?thesis
    proof (cases "hello_wait s1")
      case True
      with Cons.prems Next have "await_hello ins s1 = Received si' rest" by simp
      from Cons.IH [OF this c] Next show ?thesis by simp
    next
      case False
      with Cons.prems Next have "si' = s1" "rest = ins" by simp_all
      with Next c show ?thesis by simp
    qed
  next
    case (Exit s1)
    with Cons.prems obtain s2 where s2: "closeChannels s1 = Some s2" "si' = s2"
      by (auto split: option.splits)
    with Exit closeChannels_hello_closed [OF s2(1)] show ?thesis by simp
  next
    case (Stall s1)
    with Cons.prems show ?thesis by simp
  next
    case StepPanic
    with Cons.prems show ?thesis by simp
  qed
qed

text \<open>
  When the server's hello is the first element the decoder reads, after any number of
  tokens that are no start element, the session \<^verbatim>\<open>NewSession\<close> returns is the new
  session with the hello received, the response written and the framing mode set.
\<close>

lemma NewSession_hello_first:
  assumes "dec_err d = None"
  shows "NewSession (replicate n OtherToken @ StartElement nameHello d # rest) res =
     (case res of
        Some e \<Rightarrow> Error e
      | None \<Rightarrow>
          if CapBase11 \<in> set (Capabilities (dec_hello d))
          then Session (new_sesImpl\<lparr>hello := Some (dec_hello d),
                  written := [HelloEnv \<lparr>Capabilities = [CapBase11]\<rparr>],
                  framing_mode := Chunked\<rparr>) rest
          else Session (new_sesImpl\<lparr>hello := Some (dec_hello d),
                  written := [HelloEnv \<lparr>Capabilities = [CapBase10]\<rparr>],
                  framing_mode := framing_mode new_sesImpl\<rparr>) rest)"
proof -
  let ?s0 = "new_sesImpl\<lparr>hello_wait := True\<rparr>"
  let ?s1 = "new_sesImpl\<lparr>hello := Some (dec_hello d)\<rparr>"
  have it: "iteration (StartElement nameHello d) ?s0 = Next ?s1"
    using assms by (simp add: iteration_def new_sesImpl_def)
  have "await_hello (replicate n OtherToken @ StartElement nameHello d # rest) ?s0
      = await_hello (StartElement nameHello d # rest) ?s0"
    by (rule await_hello_skip) simp
  also have "\<dots> = Received ?s1 rest"
    by (simp add: it) (simp add: new_sesImpl_def)
  finally have w: "await_hello (replicate n OtherToken @ StartElement nameHello d # rest) ?s0
      = Received ?s1 rest" .
  show ?thesis
    by (cases res)
       (simp_all add: NewSession_def w negotiate_eq encode_def DefaultCapabilities_def,
        simp_all add: new_sesImpl_def)
qed

subsection \<open>C6: capability negotiation\<close>

text \<open>
  C6. Whenever \<^verbatim>\<open>NewSession\<close> has received the server's hello from the dispatch loop:
  if the capabilities of that hello contain base:1.1, the hello response it encodes
  holds exactly base:1.1 and, the response written, the framing mode of the codec becomes
  chunked; otherwise the response holds the default capabilities (base:1.0) and the
  framing mode stays as it is. Nothing else of the session changes. When the encoder
  fails on the response, its error is returned and no session.
\<close>

theorem hello_negotiation:
  assumes "await_hello ins (new_sesImpl\<lparr>hello_wait := True\<rparr>) = Received si rest"
    and "hello si = Some h"
  shows "NewSession ins res =
     (case res of
        Some e \<Rightarrow> Error e
      | None \<Rightarrow>
          if CapBase11 \<in> set (Capabilities h)
          then Session (si\<lparr>written := written si @ [HelloEnv \<lparr>Capabilities = [CapBase11]\<rparr>],
                           framing_mode := Chunked\<rparr>) rest
          else Session (si\<lparr>written := written si @ [HelloEnv \<lparr>Capabilities = [CapBase10]\<rparr>]\<rparr>)
                 rest)"
  by (cases res)
     (simp_all add: NewSession_def assms negotiate_eq encode_def DefaultCapabilities_def)

theorem hello_negotiation_witness:
  "await_hello [OtherToken, hello_in [CapBase10, CapBase11], OtherToken]
       (new_sesImpl\<lparr>hello_wait := True\<rparr>)
     = Received (new_sesImpl\<lparr>hello := Some \<lparr>Capabilities = [CapBase10, CapBase11]\<rparr>\<rparr>)
         [OtherToken]
   \<and> NewSession [OtherToken, hello_in [CapBase10, CapBase11], OtherToken] None
     = Session (new_sesImpl\<lparr>hello := Some \<lparr>Capabilities = [CapBase10, CapBase11]\<rparr>,
                  written := [HelloEnv \<lparr>Capabilities = [CapBase11]\<rparr>],
                  framing_mode := Chunked\<rparr>) [OtherToken]
   \<and> NewSession [hello_in [CapBase10]] None
     = Session (new_sesImpl\<lparr>hello := Some \<lparr>Capabilities = [CapBase10]\<rparr>,
                  written := [HelloEnv \<lparr>Capabilities = [CapBase10]\<rparr>]\<rparr>) []"
proof -
  have a: "await_hello [OtherToken, hello_in [CapBase10, CapBase11], OtherToken]
       (new_sesImpl\<lparr>hello_wait := True\<rparr>)
     = Received (new_sesImpl\<lparr>hello := Some \<lparr>Capabilities = [CapBase10, CapBase11]\<rparr>\<rparr>)
         [OtherToken]"
    by (simp add: hello_in_def elem_def iteration_def new_sesImpl_def)
  have b: "await_hello [hello_in [CapBase10]] (new_sesImpl\<lparr>hello_wait := True\<rparr>)
     = Received (new_sesImpl\<lparr>hello := Some \<lparr>Capabilities = [CapBase10]\<rparr>\<rparr>) []"
    by (simp add: hello_in_def elem_def iteration_def new_sesImpl_def)
  from hello_negotiation [OF a, of "\<lparr>Capabilities = [CapBase10, CapBase11]\<rparr>" None]
    hello_negotiation [OF b, of "\<lparr>Capabilities = [CapBase10]\<rparr>" None] a
  show ?thesis
    by (simp add: new_sesImpl_def CapBase10_def CapBase11_def)
qed

subsection \<open>C4: the transport closes before the hello\<close>

text \<open>
  C4. When the transport fails or ends before the server's hello (after any number of
  tokens that are no start element), the dispatch loop leaves and closes the hello
  channel, \<^verbatim>\<open>NewSession\<close> receives \<^verbatim>\<open>nil\<close> from it and dereferences it: the call
  panics, whatever the encoder would answer, and returns no error.
\<close>

theorem NewSession_transport_closed_panics:
  "NewSession (replicate n OtherToken @ TokenError err # rest) res = Panic"
proof -
  let ?s0 = "new_sesImpl\<lparr>hello_wait := True\<rparr>"
  have "await_hello (replicate n OtherToken @ TokenError err # rest) ?s0
      = await_hello (TokenError err # rest) ?s0"
    by (rule await_hello_skip) simp
  moreover have "\<exists>si. await_hello (TokenError err # rest) ?s0 = Received si [] \<and> hello si = None"
    by (simp add: iteration_def logf_def closeChannels_def new_sesImpl_def
          closeAllResponseChannels.simps popRespChan_def)
  ultimately obtain si
    where "await_hello (replicate n OtherToken @ TokenError err # rest) ?s0 = Received si []"
      and "hello si = None"
    by auto
  then show ?thesis
    by (simp add: NewSession_def)
qed

subsection \<open>C3: a queued channel goes back to the pool\<close>

text \<open>
  C3. When the encoder fails, \<^verbatim>\<open>Execute\<close> returns the error with the channel it
  allocated both at the tail of the correlation queue and on top of the pool: the next
  \<^verbatim>\<open>allocChan\<close> hands out the channel that is still queued.
\<close>

theorem Execute_error_pools_queued_channel:
  "\<exists>si'. Execute_submit si mid req (Some e) = Inl (si', e)
     \<and> responseq si' = responseq si @ [fst (allocChan si)]
     \<and> pool si' = pool (snd (allocChan si)) @ [fst (allocChan si)]
     \<and> fst (allocChan si') = fst (allocChan si)"
  by (simp add: Execute_submit_def ExecuteAsync_def pushRespChan_def encode_def relChan_def
        allocChan_def Let_def nth_append split: prod.splits)

subsection \<open>Leaving the loop\<close>

lemma iteration_Exit:
  "iteration i si = Exit si1 \<Longrightarrow> \<exists>l. si1 = si\<lparr>evtlog := l\<rparr>"
proof (cases i)
  case (TokenError err)
  assume "iteration i si = Exit si1"
  with TokenError have "si1 = (if err \<noteq> EOF then logf si (''Token() error: '' @ error_text err @ [CHR 0x0A])
      else si)"
    by (simp add: iteration_def)
  then have "si1 = si\<lparr>evtlog := evtlog si1\<rparr>"
    by (simp add: logf_def split: if_splits)
  then show ?thesis ..
next
  case OtherToken
  assume "iteration i si = Exit si1"
  with OtherToken show ?thesis by (simp add: iteration_def)
next
  case (StartElement name d)
  assume "iteration i si = Exit si1"
  with StartElement have "si1 = logf si (''DecodeElement() error: '' @ error_text (the (dec_err d)) @ [CHR 0x0A])"
    by (auto simp: iteration_def Let_def split: if_splits option.splits prod.splits)
  then have "si1 = si\<lparr>evtlog := evtlog si1\<rparr>"
    by (simp add: logf_def)
  then show ?thesis ..
qed


lemma NewSession_negotiated: "NewSession [hello_in [CapBase10]] None = Session negotiated []"
  by (simp add: NewSession_def hello_in_def elem_def new_sesImpl_def negotiated_def
        iteration_def encode_def DefaultCapabilities_def CapBase10_def CapBase11_def Let_def)

subsection \<open>C5: the teardown\<close>

text \<open>
  C5. The teardown does not close every pending channel. After the handshake, two
  \<^verbatim>\<open>Execute\<close> calls on which the encoder fails leave the one pooled channel queued
  twice, and the teardown closes it twice: the second \<^verbatim>\<open>close\<close> panics. The same
  happens when two \<^verbatim>\<open>ExecuteAsync\<close> calls are given the same channel, before the
  channel queued behind them is closed. And the drain stops at a nil channel, queued by
  an \<^verbatim>\<open>ExecuteAsync\<close> call with a nil channel: the channel behind it stays open and
  queued, and a receive on it still blocks.
\<close>

theorem teardown_double_close:
  "responseq (failed_Execute (failed_Execute negotiated)) = [Some 0, Some 0]
   \<and> pool (failed_Execute (failed_Execute negotiated)) = [Some 0]
   \<and> handleInput [TokenError EOF] (failed_Execute (failed_Execute negotiated)) = Crashed
   \<and> responseq pending_twice = [Some 1, Some 1, Some 2]
   \<and> handleInput [TokenError EOF] pending_twice = Crashed
   \<and> responseq pending_after_nil = [None, Some 1]
   \<and> handleInput [TokenError EOF] pending_after_nil
       = Finished (pending_after_nil\<lparr>hello_closed := True, responseq := [Some 1]\<rparr>)
   \<and> rclosed (pending_after_nil\<lparr>hello_closed := True, responseq := [Some 1]\<rparr>) = {}
   \<and> recv_reply (pending_after_nil\<lparr>hello_closed := True, responseq := [Some 1]\<rparr>) (Some 1)
       = RecvBlocks"
  by (simp add: failed_Execute_def Execute_submit_def allocChan_def relChan_def
        pending_after_nil_def pending_twice_def ExecuteAsync_def pushRespChan_def
        encode_def negotiated_def new_sesImpl_def iteration_def closeChannels_def
        closeAllResponseChannels.simps popRespChan_def close_reply_chan_def recv_reply_def
        Let_def)

subsection \<open>C2: Execute on a channel closed by the teardown\<close>




subsection \<open>C7: a submission whose encoding fails\<close>

text \<open>
  C7. When the encoder fails, \<^verbatim>\<open>ExecuteAsync\<close>, \<^verbatim>\<open>Execute\<close> and \<^verbatim>\<open>Subscribe\<close>
  return the encoder's error with nothing written and the channel of the call at the tail
  of the correlation queue; \<^verbatim>\<open>Execute\<close> and \<^verbatim>\<open>Subscribe\<close> also put that channel
  back on the pool, and \<^verbatim>\<open>Subscribe\<close> registers no subscriber. The slot is not kept
  for the teardown. After the failed call on channel 5 and the written call on channel 6,
  the next reply takes the slot of channel 5, and the teardown that follows closes
  channel 6 only: channel 5 is never closed. After a \<^verbatim>\<open>Subscribe\<close> on which the
  encoder fails, the next \<^verbatim>\<open>Execute\<close> takes the same channel from the pool and queues
  it again, and the teardown panics closing it twice.
\<close>

theorem failed_submission_slot:
  "ExecuteAsync si mid req rchan (Some e) = (si\<lparr>responseq := responseq si @ [rchan]\<rparr>, Some e)
   \<and> Execute_submit si mid req (Some e)
       = Inl ((snd (allocChan si))\<lparr>responseq := responseq si @ [fst (allocChan si)],
                                  pool := pool (snd (allocChan si)) @ [fst (allocChan si)]\<rparr>, e)
   \<and> Subscribe_submit si mid req nchan (Some e)
       = Inl ((snd (allocChan si))\<lparr>responseq := responseq si @ [fst (allocChan si)],
                                  pool := pool (snd (allocChan si)) @ [fst (allocChan si)]\<rparr>, e)
   \<and> run misrouted negotiated = Some misrouted_state
   \<and> handleInput [TokenError EOF] misrouted_state
       = Finished (misrouted_state\<lparr>hello_closed := True, responseq := [], rclosed := {6}\<rparr>)
   \<and> responseq (failed_Subscribe negotiated) = [Some 0]
   \<and> pool (failed_Subscribe negotiated) = [Some 0]
   \<and> subchan (failed_Subscribe negotiated) = None
   \<and> responseq resubmitted = [Some 0, Some 0]
   \<and> handleInput [TokenError EOF] resubmitted = Crashed"
proof -
  have a: "ExecuteAsync si mid req rchan (Some e)
      = (si\<lparr>responseq := responseq si @ [rchan]\<rparr>, Some e)"
    by (simp add: ExecuteAsync_def pushRespChan_def encode_def)
  have q: "responseq (snd (allocChan si)) = responseq si"
    by (simp add: allocChan_def Let_def)
  have b: "Execute_submit si mid req (Some e)
       = Inl ((snd (allocChan si))\<lparr>responseq := responseq si @ [fst (allocChan si)],
                                  pool := pool (snd (allocChan si)) @ [fst (allocChan si)]\<rparr>, e)"
    by (simp add: Execute_submit_def ExecuteAsync_def pushRespChan_def encode_def relChan_def q
          case_prod_beta Let_def)
  have c: "Subscribe_submit si mid req nchan (Some e)
       = Inl ((snd (allocChan si))\<lparr>responseq := responseq si @ [fst (allocChan si)],
                                  pool := pool (snd (allocChan si)) @ [fst (allocChan si)]\<rparr>, e)"
    by (simp add: Subscribe_submit_def ExecuteAsync_def pushRespChan_def encode_def relChan_def q
          case_prod_beta Let_def)
  have d: "run misrouted negotiated = Some misrouted_state
   \<and> handleInput [TokenError EOF] misrouted_state
       = Finished (misrouted_state\<lparr>hello_closed := True, responseq := [], rclosed := {6}\<rparr>)"
    by (simp add: misrouted_def misrouted_state_def negotiated_def new_sesImpl_def reply_in_def
        elem_def exec_def ExecuteAsync_def pushRespChan_def encode_def iteration_def
        names_distinct popRespChan_def closeChannels_def closeAllResponseChannels.simps
        close_reply_chan_def Let_def)
  have f: "responseq (failed_Subscribe negotiated) = [Some 0]
   \<and> pool (failed_Subscribe negotiated) = [Some 0]
   \<and> subchan (failed_Subscribe negotiated) = None
   \<and> responseq resubmitted = [Some 0, Some 0]
   \<and> handleInput [TokenError EOF] resubmitted = Crashed"
    by (simp add: resubmitted_def failed_Subscribe_def Subscribe_submit_def Execute_submit_def
        allocChan_def relChan_def ExecuteAsync_def pushRespChan_def encode_def negotiated_def
        new_sesImpl_def iteration_def closeChannels_def closeAllResponseChannels.simps
        popRespChan_def close_reply_chan_def Let_def)
  from a b c d f show ?thesis by simp
qed

subsection \<open>C8: notifications\<close>

text \<open>
  C8. On a notification element, whatever \<^verbatim>\<open>DecodeElement\<close> returns: with no
  subscriber registered the loop goes on with the session unchanged, nothing is sent;
  with a subscriber whose channel is open and whose receiver is ready, the loop sends on
  that channel one \<^verbatim>\<open>Notification\<close> whose name and timestamp are those of the decoded
  message and whose body is the element \<^verbatim>\<open><local xmlns="space">body</local>\<close> built
  from the decoded event, and goes on.
\<close>

theorem notification_delivery:
  "(subchan si = None \<longrightarrow> iteration (StartElement notification d) si = Next si)
   \<and> (subchan si = Some c \<and> c \<notin> nclosed si \<and> c \<in> nready si \<longrightarrow>
        iteration (StartElement notification d) si =
          Next (si\<lparr>nsent := nsent si @
            [(c, \<lparr>n_XMLName = ev_XMLName (nm_Event (dec_notif d)),
                  n_EventTime = nm_EventTime (dec_notif d),
                  n_Event = ''<'' @ Local (ev_XMLName (nm_Event (dec_notif d)))
                    @ '' xmlns='' @ [CHR 0x22] @ Space (ev_XMLName (nm_Event (dec_notif d)))
                    @ [CHR 0x22] @ ''>'' @ ev_Event (nm_Event (dec_notif d))
                    @ ''</'' @ Local (ev_XMLName (nm_Event (dec_notif d))) @ ''>''\<rparr>)]\<rparr>))"
  by (simp add: iteration_def names_distinct notification_text_def Let_def)


theorem notification_delivery_witness:
  "subchan (new_sesImpl\<lparr>subchan := Some 7, nready := {7}\<rparr>) = Some 7
   \<and> 7 \<notin> nclosed (new_sesImpl\<lparr>subchan := Some 7, nready := {7}\<rparr>)
   \<and> 7 \<in> nready (new_sesImpl\<lparr>subchan := Some 7, nready := {7}\<rparr>)
   \<and> iteration (StartElement notification (link_up_notification None))
       (new_sesImpl\<lparr>subchan := Some 7, nready := {7}\<rparr>)
     = Next (new_sesImpl\<lparr>subchan := Some 7, nready := {7},
          nsent := [(7, \<lparr>n_XMLName = \<lparr>Space = ''urn:x'', Local = ''link-up''\<rparr>,
                         n_EventTime = ''2018-01-01T00:00:00Z'',
                         n_Event = ''<link-up xmlns='' @ [CHR 0x22] @ ''urn:x'' @ [CHR 0x22]
                           @ ''><if>eth0</if></link-up>''\<rparr>)]\<rparr>)
   \<and> subchan new_sesImpl = None
   \<and> iteration (StartElement notification (link_up_notification None)) new_sesImpl
     = Next new_sesImpl"
  using notification_delivery [of "new_sesImpl\<lparr>subchan := Some 7, nready := {7}\<rparr>"
      "link_up_notification None" 7]
    notification_delivery [of new_sesImpl "link_up_notification None" 7]
  by (simp add: new_sesImpl_def link_up_notification_def)

subsection \<open>Delivery goroutines on the nil channel\<close>

lemma take_task_nil:
  "take_task c ts = Some (v, ts') \<Longrightarrow>
   filter (\<lambda>t. fst t = None) ts' = filter (\<lambda>t. fst t = None) ts"
  by (induction c ts arbitrary: v ts' rule: take_task.induct)
     (auto split: if_splits option.splits)

lemma recv_reply_nil:
  "recv_reply si ch = Recv v si' \<Longrightarrow> nil_tasks si' = nil_tasks si"
  by (auto simp: recv_reply_def nil_tasks_def split: option.splits if_splits dest: take_task_nil)

lemma ExecuteAsync_tasks: "tasks (fst (ExecuteAsync si mid req ch res)) = tasks si"
  by (simp add: ExecuteAsync_def pushRespChan_def encode_def Let_def split: option.splits)

lemma Execute_submit_tasks:
  "Execute_submit si mid req res = Inl (si', e) \<Longrightarrow> tasks si' = tasks si"
  "Execute_submit si mid req res = Inr (si', ch) \<Longrightarrow> tasks si' = tasks si"
  by (auto simp: Execute_submit_def ExecuteAsync_def pushRespChan_def encode_def relChan_def
        allocChan_def Let_def split: option.splits prod.splits if_splits)

lemma Subscribe_submit_tasks:
  "Subscribe_submit si mid req n res = Inl (si', e) \<Longrightarrow> tasks si' = tasks si"
  "Subscribe_submit si mid req n res = Inr (si', ch) \<Longrightarrow> tasks si' = tasks si"
  by (auto simp: Subscribe_submit_def ExecuteAsync_def pushRespChan_def encode_def relChan_def
        allocChan_def Let_def split: option.splits prod.splits if_splits)

lemma iteration_Exit_tasks: "iteration i si = Exit si' \<Longrightarrow> tasks si' = tasks si"
  by (auto dest: iteration_Exit)

lemma iteration_Next_tasks:
  "iteration i si = Next si' \<Longrightarrow> \<exists>more. tasks si' = tasks si @ more"
  by (auto simp: iteration_def logf_def Let_def popRespChan_def
        split: input.splits option.splits if_splits prod.splits list.splits)

lemma exec_keeps_nil_tasks:
  assumes "exec ev si = Some si'"
  shows "\<exists>more. nil_tasks si' = nil_tasks si @ more"
proof (cases ev)
  case (CallExecuteAsync mid req ch res)
  with assms show ?thesis by (auto simp: exec_def nil_tasks_def ExecuteAsync_tasks)
next
  case (CallExecute mid req res)
  with assms show ?thesis
    by (auto simp: exec_def nil_tasks_def split: sum.splits prod.splits
          dest: Execute_submit_tasks)
next
  case (ResumeExecute ch)
  with assms obtain v s1 where "recv_reply si ch = Recv v s1" "si' = relChan s1 ch"
    by (auto simp: exec_def Execute_receive_def split: recv.splits call.splits)
  with recv_reply_nil [of si ch v s1] show ?thesis
    by (simp add: nil_tasks_def relChan_def)
next
  case (CallSubscribe mid req n res)
  with assms show ?thesis
    by (auto simp: exec_def nil_tasks_def split: sum.splits prod.splits
          dest: Subscribe_submit_tasks)
next
  case (ResumeSubscribe ch)
  with assms obtain v s1 where "recv_reply si ch = Recv v s1" "si' = relChan s1 ch"
    by (auto simp: exec_def Subscribe_receive_def split: recv.splits call.splits)
  with recv_reply_nil [of si ch v s1] show ?thesis
    by (simp add: nil_tasks_def relChan_def)
next
  case (Receive ch)
  with assms show ?thesis
    by (auto simp: exec_def split: recv.splits dest: recv_reply_nil)
next
  case (Incoming i)
  show ?thesis
  proof (cases "iteration i si")
    case (Next s1)
    with assms Incoming have "si' = s1" by (auto simp: exec_def split: if_splits)
    with iteration_Next_tasks [OF Next] show ?thesis by (auto simp: nil_tasks_def)
  next
    case (Exit s1)
    with assms Incoming have "closeChannels s1 = Some si'"
      by (auto simp: exec_def split: if_splits)
    with iteration_Exit_tasks [OF Exit] show ?thesis
      by (auto simp: nil_tasks_def dest: closeChannels_tasks)
  next
    case (Stall s1)
    with assms Incoming show ?thesis by (auto simp: exec_def split: if_splits)
  next
    case StepPanic
    with assms Incoming show ?thesis by (auto simp: exec_def split: if_splits)
  qed
qed

lemma run_keeps_nil_tasks:
  "run evs si = Some si' \<Longrightarrow> \<exists>more. nil_tasks si' = nil_tasks si @ more"
proof (induction evs arbitrary: si)
  case Nil
  then show ?case by simp
next
  case (Cons ev evs)
  then obtain s1 where s1: "exec ev si = Some s1" and r: "run evs s1 = Some si'"
    by (auto split: option.splits)
  from exec_keeps_nil_tasks [OF s1] Cons.IH [OF r] show ?case by auto
qed

subsection \<open>C9: a reply with nothing outstanding\<close>

text \<open>
  C9. When an rpc-reply is decoded while the correlation queue is empty,
  \<^verbatim>\<open>popRespChan\<close> returns the nil channel and leaves the session as it is, the reply is
  handed to a delivery goroutine that sends on the nil channel, and the dispatch loop goes
  on with the rest of the input. In every run that follows, that goroutine is still
  blocked: no receive takes its reply.
\<close>

theorem reply_with_empty_queue:
  assumes "responseq si = []" and "dec_err d = None"
  shows "popRespChan si = (None, si)
     \<and> iteration (StartElement nameRPCReply d) si
         = Next (si\<lparr>tasks := tasks si @ [(None, dec_reply d)]\<rparr>)
     \<and> handleInput (StartElement nameRPCReply d # rest) si
         = handleInput rest (si\<lparr>tasks := tasks si @ [(None, dec_reply d)]\<rparr>)
     \<and> (\<forall>evs si'. run evs (si\<lparr>tasks := tasks si @ [(None, dec_reply d)]\<rparr>) = Some si' \<longrightarrow>
          (\<exists>more. nil_tasks si' = nil_tasks si @ (None, dec_reply d) # more))"
proof -
  let ?s1 = "si\<lparr>tasks := tasks si @ [(None, dec_reply d)]\<rparr>"
  have p: "popRespChan si = (None, si)"
    using assms(1) by (simp add: popRespChan_def)
  have it: "iteration (StartElement nameRPCReply d) si = Next ?s1"
    using assms(2) by (simp add: iteration_def names_distinct p)
  have "\<exists>more. nil_tasks si' = nil_tasks si @ (None, dec_reply d) # more"
    if "run evs ?s1 = Some si'" for evs si'
    using run_keeps_nil_tasks [OF that] by (auto simp: nil_tasks_def)
  with p it show ?thesis by simp
qed

theorem reply_with_empty_queue_witness:
  "responseq new_sesImpl = [] \<and> dec_err ((elem nameRPCReply)\<lparr>dec_reply := ''late''\<rparr>) = None
   \<and> handleInput [reply_in ''late'', OtherToken] new_sesImpl
       = Reading (new_sesImpl\<lparr>tasks := [(None, ''late'')]\<rparr>)
   \<and> run [CallExecuteAsync ''1'' ''<get/>'' (Some 0) None, Incoming (reply_in ''data''),
           Receive (Some 0)] (new_sesImpl\<lparr>tasks := [(None, ''late'')]\<rparr>)
       = Some (new_sesImpl\<lparr>tasks := [(None, ''late'')],
            written := [RPCEnv \<lparr>MessageID = ''1'', Methods = ''<get/>''\<rparr>]\<rparr>)"
  using reply_with_empty_queue [of new_sesImpl "(elem nameRPCReply)\<lparr>dec_reply := ''late''\<rparr>"
      "[OtherToken]"]
  by (simp add: new_sesImpl_def reply_in_def elem_def iteration_def exec_def ExecuteAsync_def
        pushRespChan_def encode_def popRespChan_def recv_reply_def names_distinct Let_def)

subsection \<open>C10: decode errors\<close>

text \<open>
  C10. When \<^verbatim>\<open>DecodeElement\<close> fails on a notification element, the error is dropped:
  the pass of the loop does what it does on the same decoded message without the error,
  nothing is logged, and the loop goes on with the rest of the input, after sending the
  \<^verbatim>\<open>Notification\<close> built from whatever was decoded if a subscriber is registered
  (its channel open and its receiver ready). When \<^verbatim>\<open>DecodeElement\<close> fails on a hello
  or an rpc-reply element, the loop logs the error and leaves: the rest of the input is
  not read and the teardown runs.
\<close>

theorem notification_decode_error_ignored:
  assumes "dec_err d = Some err"
  shows "iteration (StartElement notification d) si
       = iteration (StartElement notification (d\<lparr>dec_err := None\<rparr>)) si
     \<and> (subchan si = None \<longrightarrow>
          handleInput (StartElement notification d # rest) si = handleInput rest si)
     \<and> (subchan si = Some c \<and> c \<notin> nclosed si \<and> c \<in> nready si \<longrightarrow>
          handleInput (StartElement notification d # rest) si
            = handleInput rest (si\<lparr>nsent := nsent si @
                [(c, \<lparr>n_XMLName = ev_XMLName (nm_Event (dec_notif d)),
                      n_EventTime = nm_EventTime (dec_notif d),
                      n_Event = notification_text (dec_notif d)\<rparr>)]\<rparr>))
     \<and> handleInput (StartElement nameHello d # rest) si
         = (case closeChannels (si\<lparr>evtlog := evtlog si @
                    [''DecodeElement() error: '' @ error_text err @ [CHR 0x0A]]\<rparr>) of
              None \<Rightarrow> Crashed
            | Some si' \<Rightarrow> Finished si')
     \<and> handleInput (StartElement nameRPCReply d # rest) si
         = (case closeChannels (si\<lparr>evtlog := evtlog si @
                    [''DecodeElement() error: '' @ error_text err @ [CHR 0x0A]]\<rparr>) of
              None \<Rightarrow> Crashed
            | Some si' \<Rightarrow> Finished si')"
proof -
  have n: "iteration (StartElement notification d) si
       = iteration (StartElement notification (d\<lparr>dec_err := None\<rparr>)) si"
    by (simp add: iteration_def names_distinct)
  have n0: "subchan si = None \<Longrightarrow>
      handleInput (StartElement notification d # rest) si = handleInput rest si"
    by (simp add: iteration_def names_distinct)
  have n1: "subchan si = Some c \<and> c \<notin> nclosed si \<and> c \<in> nready si \<Longrightarrow>
      handleInput (StartElement notification d # rest) si
        = handleInput rest (si\<lparr>nsent := nsent si @
            [(c, \<lparr>n_XMLName = ev_XMLName (nm_Event (dec_notif d)),
                  n_EventTime = nm_EventTime (dec_notif d),
                  n_Event = notification_text (dec_notif d)\<rparr>)]\<rparr>)"
    by (simp add: iteration_def names_distinct Let_def)
  have h: "iteration (StartElement nameHello d) si
       = Exit (si\<lparr>evtlog := evtlog si @ [''DecodeElement() error: '' @ error_text err @ [CHR 0x0A]]\<rparr>)"
    using assms by (simp add: iteration_def logf_def)
  have r: "iteration (StartElement nameRPCReply d) si
       = Exit (si\<lparr>evtlog := evtlog si @ [''DecodeElement() error: '' @ error_text err @ [CHR 0x0A]]\<rparr>)"
    using assms by (simp add: iteration_def logf_def names_distinct)
  from n n0 n1 show ?thesis
    by (simp only: handleInput.simps h r step.case) simp
qed

theorem notification_decode_error_ignored_witness:
  "dec_err (link_up_notification (Some (Failure ''unexpected EOF''))) = Some (Failure ''unexpected EOF'')
   \<and> handleInput [StartElement notification (link_up_notification (Some (Failure ''unexpected EOF''))),
                  OtherToken] new_sesImpl
       = Reading new_sesImpl
   \<and> handleInput [StartElement nameRPCReply (link_up_notification (Some (Failure ''unexpected EOF''))),
                  OtherToken] new_sesImpl
       = Finished (new_sesImpl\<lparr>evtlog := [''DecodeElement() error: unexpected EOF'' @ [CHR 0x0A]],
                                 hello_closed := True\<rparr>)"
  using notification_decode_error_ignored [of "link_up_notification (Some (Failure ''unexpected EOF''))"
      "Failure ''unexpected EOF''" new_sesImpl "[OtherToken]" 0]
  by (simp add: link_up_notification_def new_sesImpl_def iteration_def names_distinct logf_def
        closeChannels_def closeAllResponseChannels.simps popRespChan_def)

end
